theory Spec2Isabelle
  imports Complex_Main "HOL-Library.Word" "HOL-Library.Multiset"
begin

section \<open>Blurify: the redaction engine of TextRedactor.tsx and ImageRedactor.tsx\<close>

subsection \<open>Strings and files (types.ts, utils/fileHelpers.ts)\<close>

text \<open>
  A JavaScript string is a sequence of UTF-16 code units; \<^verbatim>\<open>split('')\<close> cuts it into
  one-unit strings and \<^verbatim>\<open>join('')\<close> glues them back, so a document is modelled as the
  list of its code units.
\<close>

type_synonym code_unit = "16 word"
type_synonym js_string = "code_unit list"

definition js_lit :: "string \<Rightarrow> js_string" where
  "js_lit s = map (\<lambda>c. word_of_nat (of_char c)) s"

text \<open>\<^verbatim>\<open>type FileType = 'image' | 'text'\<close>\<close>

datatype FileType = FT_image | FT_text

record UploadedFile =
  file_name :: js_string
  file_type :: FileType
  file_content :: js_string

text \<open>What \<^verbatim>\<open>downloadText(content, filename)\<close> hands to the browser: the link's
  download name and the blob's text.\<close>

record text_download =
  download_name :: js_string
  blob_text :: js_string

definition downloadText :: "js_string \<Rightarrow> js_string \<Rightarrow> text_download" where
  "downloadText content filename =
     \<lparr>download_name = js_lit ''redacted-'' @ filename, blob_text = content\<rparr>"

subsection \<open>Text ranges (TextRedactor.tsx)\<close>

text \<open>
  \<^verbatim>\<open>interface TextRange { id: string; start: number; end: number }\<close>.
  The offsets are the integers read from \<^verbatim>\<open>selectionStart\<close>/\<^verbatim>\<open>selectionEnd\<close>;
  they are kept as \<^typ>\<open>int\<close> so that no range is excluded by the type (integers of
  this size are exact in a JavaScript number, so \<^verbatim>\<open>i++\<close> is \<open>i + 1\<close>).
\<close>

record TextRange =
  range_id :: string
  range_start :: int
  range_end :: int

text \<open>The replacement character U+2588 (one code unit).\<close>

definition replacement :: code_unit where
  "replacement = 0x2588"

text \<open>
  \<^verbatim>\<open>arr[i] = v\<close> for an integer \<open>i\<close> below \<^verbatim>\<open>arr.length\<close>: an element store.
  A negative \<open>i\<close> is a property key, not an index: the store leaves every element
  and the length as they were.
\<close>

definition store :: "'a list \<Rightarrow> int \<Rightarrow> 'a \<Rightarrow> 'a list" where
  "store arr i v = (if 0 \<le> i then arr[nat i := v] else arr)"

text \<open>
  The loop that both \<^verbatim>\<open>handleExport\<close> (lines 67-69, \<open>v\<close> the replacement character)
  and \<^verbatim>\<open>renderBackdrop\<close> (lines 89-91, \<open>v\<close> true) run for one range:
  \<^verbatim>\<open>for (let i = start; i < end; i++) { if (i < arr.length) arr[i] = v; }\<close>
\<close>

function for_range :: "int \<Rightarrow> int \<Rightarrow> 'a \<Rightarrow> 'a list \<Rightarrow> 'a list" where
  "for_range i e v arr =
     (if i < e
      then for_range (i + 1) e v (if i < int (length arr) then store arr i v else arr)
      else arr)"
  by pat_completeness auto
termination
  by (relation "measure (\<lambda>(i, e, v, arr). nat (e - i))") auto

declare for_range.simps [simp del]

text \<open>\<^verbatim>\<open>handleExport\<close> of TextRedactor: the character array after \<^verbatim>\<open>ranges.forEach\<close>, joined and
  passed to \<^verbatim>\<open>downloadText\<close>. (\<^verbatim>\<open>sortedRanges\<close> is computed and never read.)\<close>

definition export_chars :: "js_string \<Rightarrow> TextRange list \<Rightarrow> js_string" where
  "export_chars chars ranges =
     fold (\<lambda>range cs. for_range (range_start range) (range_end range) replacement cs)
       ranges chars"

definition handleExport_text :: "UploadedFile \<Rightarrow> TextRange list \<Rightarrow> text_download" where
  "handleExport_text file ranges =
     downloadText (export_chars (file_content file) ranges) (file_name file)"

text \<open>The mask of \<^verbatim>\<open>renderBackdrop\<close>:
  \<^verbatim>\<open>new Array(text.length).fill(false)\<close>, then the loop for every range.\<close>

definition backdrop_mask :: "js_string \<Rightarrow> TextRange list \<Rightarrow> bool list" where
  "backdrop_mask txt ranges =
     fold (\<lambda>r msk. for_range (range_start r) (range_end r) True msk)
       ranges (replicate (length txt) False)"

text \<open>Index \<open>k\<close> lies in the half-open interval of range \<open>r\<close>.\<close>

definition covers :: "TextRange \<Rightarrow> nat \<Rightarrow> bool" where
  "covers r k \<longleftrightarrow> range_start r \<le> int k \<and> int k < range_end r"

definition covered :: "TextRange list \<Rightarrow> nat \<Rightarrow> bool" where
  "covered ranges k \<longleftrightarrow> list_ex (\<lambda>r. covers r k) ranges"

text \<open>
  The component state of TextRedactor: \<^verbatim>\<open>ranges\<close> and \<^verbatim>\<open>selection\<close>.
  \<^verbatim>\<open>handleSelect\<close> reads the two offsets of the textarea; \<^verbatim>\<open>addRedaction\<close> appends
  the selected range under the identifier that \<^verbatim>\<open>crypto.randomUUID()\<close> returned
  (the argument \<open>uuid\<close>) and clears the selection.
\<close>

record text_state =
  ranges :: "TextRange list"
  selection :: "(int \<times> int) option"

definition text_init :: text_state where
  "text_init = \<lparr>ranges = [], selection = None\<rparr>"

definition handleSelect :: "int \<Rightarrow> int \<Rightarrow> text_state \<Rightarrow> text_state" where
  "handleSelect selectionStart selectionEnd s =
     (if selectionStart \<noteq> selectionEnd
      then s\<lparr>selection := Some (min selectionStart selectionEnd, max selectionStart selectionEnd)\<rparr>
      else s\<lparr>selection := None\<rparr>)"

definition addRedaction :: "string \<Rightarrow> text_state \<Rightarrow> text_state" where
  "addRedaction uuid s =
     (case selection s of
        None \<Rightarrow> s
      | Some (a, b) \<Rightarrow>
          s\<lparr>ranges := ranges s @ [\<lparr>range_id = uuid, range_start = a, range_end = b\<rparr>],
            selection := None\<rparr>)"

text \<open>One user commit: select the offsets \<open>(a, b)\<close>, then press "Redact Selection".\<close>

definition commit :: "string \<times> int \<times> int \<Rightarrow> text_state \<Rightarrow> text_state" where
  "commit c s = (case c of (uuid, a, b) \<Rightarrow> addRedaction uuid (handleSelect a b s))"

text \<open>The offsets \<open>(a, b)\<close> of a committed selection cover index \<open>k\<close>.\<close>

definition span_covers :: "int \<times> int \<Rightarrow> nat \<Rightarrow> bool" where
  "span_covers p k = (case p of (a, b) \<Rightarrow> a \<noteq> b \<and> min a b \<le> int k \<and> int k < max a b)"

text \<open>
  The specification's other route to the exported text: replace the characters whose
  mask entry is true. It is compared with \<^const>\<open>export_chars\<close> below.
\<close>

definition replace_masked :: "js_string \<Rightarrow> bool list \<Rightarrow> js_string" where
  "replace_masked chars msk = map (\<lambda>(c, m). if m then replacement else c) (zip chars msk)"

text \<open>A range cut off at the document's end.\<close>

definition clip_range :: "nat \<Rightarrow> TextRange \<Rightarrow> TextRange" where
  "clip_range n r = r\<lparr>range_end := min (range_end r) (int n)\<rparr>"

subsection \<open>Boxes and the drawing gesture (ImageRedactor.tsx)\<close>

text \<open>
  \<^verbatim>\<open>interface Box { id: string; x: number; y: number; w: number; h: number }\<close>.
  The pending box is a \<^verbatim>\<open>Partial<Box>\<close> that \<^verbatim>\<open>handleMouseDown\<close> creates with
  \<open>x, y, w, h\<close> and no \<open>id\<close>: the record \<open>rect\<close>; a committed box extends it with the
  identifier. Coordinates are JavaScript numbers computed from \<^verbatim>\<open>clientX - rect.left\<close>;
  they are idealised as reals (rounding of doubles is not modelled).
\<close>

record rect =
  rect_x :: real
  rect_y :: real
  rect_w :: real
  rect_h :: real

record Box = rect +
  box_id :: string

text \<open>The container element: its bounding client rectangle's corner and its offset size.\<close>

record container =
  bounding_left :: real
  bounding_top :: real
  offsetWidth :: real
  offsetHeight :: real

text \<open>
  The image element: natural and displayed size (\<^verbatim>\<open>unsigned long\<close> attributes).
  The element is rendered by the component itself, so the reference is set whenever
  "Save Image" can be pressed. While the image is not available (not yet loaded or
  decoded), \<^verbatim>\<open>naturalWidth\<close> and \<^verbatim>\<open>naturalHeight\<close> are 0.
\<close>

record img_element =
  naturalWidth :: nat
  naturalHeight :: nat
  img_width :: nat
  img_height :: nat

text \<open>A mouse event: pointer position, and whether its target lies inside a button.\<close>

record mouse_event =
  clientX :: real
  clientY :: real
  in_button :: bool

record redactor =
  boxes :: "Box list"
  currentBox :: "rect option"
  isDrawing :: bool
  containerRef :: "container option"
  imageRef :: "img_element option"

definition image_init :: "container option \<Rightarrow> img_element option \<Rightarrow> redactor" where
  "image_init c i =
     \<lparr>boxes = [], currentBox = None, isDrawing = False, containerRef = c, imageRef = i\<rparr>"

definition getRelativeCoords :: "redactor \<Rightarrow> mouse_event \<Rightarrow> real \<times> real" where
  "getRelativeCoords s e =
     (case containerRef s of
        None \<Rightarrow> (0, 0)
      | Some c \<Rightarrow> (clientX e - bounding_left c, clientY e - bounding_top c))"

definition handleMouseDown :: "mouse_event \<Rightarrow> redactor \<Rightarrow> redactor" where
  "handleMouseDown e s =
     (if in_button e then s
      else case getRelativeCoords s e of (x, y) \<Rightarrow>
        s\<lparr>isDrawing := True,
          currentBox := Some \<lparr>rect_x = x, rect_y = y, rect_w = 0, rect_h = 0\<rparr>\<rparr>)"

definition handleMouseMove :: "mouse_event \<Rightarrow> redactor \<Rightarrow> redactor" where
  "handleMouseMove e s =
     (if \<not> isDrawing s then s
      else case currentBox s of
        None \<Rightarrow> s
      | Some cb \<Rightarrow>
         (case containerRef s of
            None \<Rightarrow> s
          | Some c \<Rightarrow>
             (case getRelativeCoords s e of (x, y) \<Rightarrow>
                let startX = rect_x cb;
                    startY = rect_y cb;
                    currentX = max 0 (min x (offsetWidth c));
                    currentY = max 0 (min y (offsetHeight c));
                    width = currentX - startX;
                    height = currentY - startY
                in s\<lparr>currentBox := Some (cb\<lparr>rect_w := width, rect_h := height\<rparr>)\<rparr>)))"

text \<open>Lines 69-70:
  \<^verbatim>\<open>if (w < 0) { x += w; w = Math.abs(w); }  if (h < 0) { y += h; h = Math.abs(h); }\<close>\<close>

definition normalize :: "rect \<Rightarrow> rect" where
  "normalize cb =
     (let x = rect_x cb; y = rect_y cb; w = rect_w cb; h = rect_h cb;
          (x, w) = (if w < 0 then (x + w, \<bar>w\<bar>) else (x, w));
          (y, h) = (if h < 0 then (y + h, \<bar>h\<bar>) else (y, h))
      in \<lparr>rect_x = x, rect_y = y, rect_w = w, rect_h = h\<rparr>)"

text \<open>\<^verbatim>\<open>{ id: crypto.randomUUID(), x, y, w, h }\<close>, \<open>uuid\<close> being the generated identifier.\<close>

definition new_box :: "string \<Rightarrow> rect \<Rightarrow> Box" where
  "new_box uuid r =
     \<lparr>rect_x = rect_x r, rect_y = rect_y r, rect_w = rect_w r, rect_h = rect_h r,
      box_id = uuid\<rparr>"

definition handleMouseUp :: "string \<Rightarrow> redactor \<Rightarrow> redactor" where
  "handleMouseUp uuid s =
     (if \<not> isDrawing s then s
      else case currentBox s of
        None \<Rightarrow> s
      | Some cb \<Rightarrow>
         (let n = normalize cb;
              s1 = s\<lparr>isDrawing := False\<rparr>;
              s2 = (if rect_w n > 5 \<and> rect_h n > 5
                    then s1\<lparr>boxes := boxes s1 @ [new_box uuid n]\<rparr>
                    else s1)
          in s2\<lparr>currentBox := None\<rparr>))"

definition removeBox :: "string \<Rightarrow> redactor \<Rightarrow> redactor" where
  "removeBox i s = s\<lparr>boxes := filter (\<lambda>b. box_id b \<noteq> i) (boxes s)\<rparr>"

text \<open>
  The events the component reacts to, bound as in the JSX: \<^verbatim>\<open>onMouseDown\<close>,
  \<^verbatim>\<open>onMouseMove\<close>, \<^verbatim>\<open>onMouseUp\<close> and \<^verbatim>\<open>onMouseLeave\<close> of the container (the last
  two both bound to \<^verbatim>\<open>handleMouseUp\<close>), the delete button of a box, and "Clear All".
  \<open>uuid\<close> is what \<^verbatim>\<open>crypto.randomUUID()\<close> would return during the event.
\<close>

datatype event =
  MouseDown mouse_event
| MouseMove mouse_event
| MouseUp
| MouseLeave
| RemoveClick string
| ClearAll

fun dispatch :: "string \<Rightarrow> event \<Rightarrow> redactor \<Rightarrow> redactor" where
  "dispatch uuid (MouseDown e) s = handleMouseDown e s"
| "dispatch uuid (MouseMove e) s = handleMouseMove e s"
| "dispatch uuid MouseUp s = handleMouseUp uuid s"
| "dispatch uuid MouseLeave s = handleMouseUp uuid s"
| "dispatch uuid (RemoveClick i) s = removeBox i s"
| "dispatch uuid ClearAll s = s\<lparr>boxes := []\<rparr>"

inductive reachable :: "redactor \<Rightarrow> bool" where
  reach_init: "reachable (image_init c i)"
| reach_step: "reachable s \<Longrightarrow> reachable (dispatch uuid ev s)"

text \<open>Two invariants of the reachable states: a gesture is in progress exactly when
  a pending box exists, and every committed box is larger than 5 in both directions.\<close>

definition gesture_inv :: "redactor \<Rightarrow> bool" where
  "gesture_inv s \<longleftrightarrow> (isDrawing s \<longleftrightarrow> currentBox s \<noteq> None)"

definition big_boxes :: "redactor \<Rightarrow> bool" where
  "big_boxes s \<longleftrightarrow> list_all (\<lambda>b. 5 < rect_w b \<and> 5 < rect_h b) (boxes s)"




subsection \<open>Image export (ImageRedactor.tsx, handleExport)\<close>

text \<open>
  The calls made on the 2D context, in order, are the content of the canvas.
  \<open>DrawImage dx dy\<close> is the call \<^verbatim>\<open>ctx.drawImage(img, dx, dy)\<close>; for an image that
  is not yet loaded the call returns without drawing.
\<close>

datatype canvas_op =
  DrawImage real real
| Save
| BeginPath
| Rect real real real real
| Clip
| SetFilter string
| Restore

record canvas =
  canvas_width :: nat
  canvas_height :: nat
  canvas_ops :: "canvas_op list"

record image_download =
  image_download_name :: js_string
  image_canvas :: canvas

definition downloadImage :: "canvas \<Rightarrow> js_string \<Rightarrow> image_download" where
  "downloadImage cv filename =
     \<lparr>image_download_name = js_lit ''redacted-'' @ filename, image_canvas = cv\<rparr>"

text \<open>
  A handler either returns or throws. Reading a property of \<^verbatim>\<open>null\<close> throws a
  TypeError; \<^verbatim>\<open>handleExport\<close> itself has no \<^verbatim>\<open>throw\<close> statement.
\<close>

datatype js_error = TypeError

definition deref :: "'a option \<Rightarrow> js_error + 'a" where
  "deref r = (case r of None \<Rightarrow> Inl TypeError | Some v \<Rightarrow> Inr v)"

text \<open>The body of \<^verbatim>\<open>boxes.forEach\<close> (lines 108-129) for one box.\<close>

definition box_ops :: "real \<Rightarrow> real \<Rightarrow> Box \<Rightarrow> canvas_op list" where
  "box_ops scaleX scaleY box =
     (let realX = rect_x box * scaleX;
          realY = rect_y box * scaleY;
          realW = rect_w box * scaleX;
          realH = rect_h box * scaleY
      in [Save, BeginPath, Rect realX realY realW realH, Clip,
          SetFilter ''blur(15px)'', DrawImage 0 0, Restore])"

text \<open>
  \<^verbatim>\<open>handleExport\<close> of ImageRedactor. \<open>has_ctx\<close> tells whether
  \<^verbatim>\<open>canvas.getContext('2d')\<close> returned a context. The result is \<open>Inr None\<close> when the
  handler returns without calling \<^verbatim>\<open>downloadImage\<close>, and \<open>Inr (Some d)\<close> when it calls
  it with \<open>d\<close>. A displayed size of 0 makes the scale \<^verbatim>\<open>Infinity\<close> or \<^verbatim>\<open>NaN\<close> in
  JavaScript, which the reals do not have: statements about the scale exclude it.
\<close>

definition handleExport_image ::
  "bool \<Rightarrow> redactor \<Rightarrow> UploadedFile \<Rightarrow> js_error + image_download option" where
  "handleExport_image has_ctx s file =
     (if imageRef s = None then Inr None
      else if \<not> has_ctx then Inr None
      else case deref (imageRef s) of
        Inl err \<Rightarrow> Inl err
      | Inr img \<Rightarrow>
         (let displayWidth = img_width img;
              displayHeight = img_height img;
              scaleX = real (naturalWidth img) / real displayWidth;
              scaleY = real (naturalHeight img) / real displayHeight;
              ops = DrawImage 0 0 # concat (map (box_ops scaleX scaleY) (boxes s))
          in Inr (Some (downloadImage
                \<lparr>canvas_width = naturalWidth img, canvas_height = naturalHeight img,
                 canvas_ops = ops\<rparr>
                (file_name file)))))"

text \<open>The rectangles passed to \<^verbatim>\<open>ctx.rect\<close>, in order.\<close>

fun clip_rects :: "canvas_op list \<Rightarrow> (real \<times> real \<times> real \<times> real) list" where
  "clip_rects [] = []"
| "clip_rects (Rect x y w h # ops) = (x, y, w, h) # clip_rects ops"
| "clip_rects (_ # ops) = clip_rects ops"

subsection \<open>Example inputs\<close>

text \<open>A 500 by 250 container at the page's origin showing a 1000 by 500 image, a
  gesture dragged from \<open>(100, 50)\<close> to \<open>(80, 80)\<close>, and one dragged to \<open>(97, 80)\<close>.\<close>

definition ex_container :: container where
  "ex_container = \<lparr>bounding_left = 0, bounding_top = 0, offsetWidth = 500, offsetHeight = 250\<rparr>"

definition ex_img :: img_element where
  "ex_img = \<lparr>naturalWidth = 1000, naturalHeight = 500, img_width = 500, img_height = 250\<rparr>"

definition ex_drawing :: "real \<Rightarrow> real \<Rightarrow> redactor" where
  "ex_drawing px py =
     handleMouseMove \<lparr>clientX = px, clientY = py, in_button = False\<rparr>
       (handleMouseDown \<lparr>clientX = 100, clientY = 50, in_button = False\<rparr>
          (image_init (Some ex_container) (Some ex_img)))"



definition ex_image_file :: UploadedFile where
  "ex_image_file =
     \<lparr>file_name = js_lit ''a.png'', file_type = FT_image, file_content = js_lit ''data:''\<rparr>"

subsection \<open>The range loop\<close>

lemma length_store [simp]: "length (store arr i v) = length arr"
  by (simp add: store_def)

lemma nth_store:
  "i < int (length arr) \<Longrightarrow> k < length arr \<Longrightarrow>
   store arr i v ! k = (if i = int k then v else arr ! k)"
  by (auto simp: store_def nth_list_update)

lemma length_for_range [simp]: "length (for_range i e v arr) = length arr"
proof (induction i e v arr rule: for_range.induct)
  case (1 i e v arr)
  show ?case
  proof (cases "i < e")
    case True
    with "1.IH" show ?thesis
      by (subst for_range.simps) simp
  next
    case False
    then show ?thesis
      by (subst for_range.simps) simp
  qed
qed

lemma nth_for_range:
  "k < length arr \<Longrightarrow>
   for_range i e v arr ! k = (if i \<le> int k \<and> int k < e then v else arr ! k)"
proof (induction i e v arr rule: for_range.induct)
  case (1 i e v arr)
  show ?case
  proof (cases "i < e")
    case False
    then show ?thesis
      by (subst for_range.simps) auto
  next
    case True
    let ?arr' = "if i < int (length arr) then store arr i v else arr"
    have len: "k < length ?arr'"
      using "1.prems" by simp
    have step: "for_range i e v arr = for_range (i + 1) e v ?arr'"
      using True by (subst for_range.simps) simp
    have "for_range (i + 1) e v ?arr' ! k =
            (if i + 1 \<le> int k \<and> int k < e then v else ?arr' ! k)"
      using "1.IH" [OF True len] .
    moreover have "?arr' ! k = (if i = int k then v else arr ! k)"
      using "1.prems" by (auto simp: nth_store)
    ultimately show ?thesis
      using True step by auto
  qed
qed

lemma length_fold_for_range [simp]:
  "length (fold (\<lambda>r a. for_range (range_start r) (range_end r) v a) rs arr) = length arr"
  by (induction rs arbitrary: arr) simp_all

lemma nth_fold_for_range:
  "k < length arr \<Longrightarrow>
   fold (\<lambda>r a. for_range (range_start r) (range_end r) v a) rs arr ! k =
     (if covered rs k then v else arr ! k)"
proof (induction rs arbitrary: arr)
  case Nil
  then show ?case by (simp add: covered_def)
next
  case (Cons r rs)
  let ?arr' = "for_range (range_start r) (range_end r) v arr"
  have "k < length ?arr'"
    using Cons.prems by simp
  then have "fold (\<lambda>r a. for_range (range_start r) (range_end r) v a) rs ?arr' ! k =
               (if covered rs k then v else ?arr' ! k)"
    by (rule Cons.IH)
  then show ?case
    using Cons.prems by (auto simp: covered_def covers_def nth_for_range)
qed

lemma length_export_chars: "length (export_chars chars rs) = length chars"
  by (simp add: export_chars_def)

lemma nth_export_chars:
  "k < length chars \<Longrightarrow>
   export_chars chars rs ! k = (if covered rs k then replacement else chars ! k)"
  by (simp add: export_chars_def nth_fold_for_range)

lemma length_backdrop_mask: "length (backdrop_mask txt rs) = length txt"
  by (simp add: backdrop_mask_def)

lemma nth_backdrop_mask:
  "k < length txt \<Longrightarrow> backdrop_mask txt rs ! k = covered rs k"
  by (simp add: backdrop_mask_def nth_fold_for_range)

lemma covered_iff:
  "covered rs k \<longleftrightarrow> (\<exists>r\<in>set rs. range_start r \<le> int k \<and> int k < range_end r)"
  by (simp add: covered_def covers_def list_ex_iff)

lemma export_chars_cong:
  assumes "\<And>k. k < length chars \<Longrightarrow> covered rs k = covered rs' k"
  shows "export_chars chars rs = export_chars chars rs'"
  by (rule nth_equalityI) (simp_all add: length_export_chars nth_export_chars assms)

lemma backdrop_mask_cong:
  assumes "\<And>k. k < length txt \<Longrightarrow> covered rs k = covered rs' k"
  shows "backdrop_mask txt rs = backdrop_mask txt rs'"
  by (rule nth_equalityI) (simp_all add: length_backdrop_mask nth_backdrop_mask assms)

lemma export_chars_via_mask:
  "export_chars chars rs = replace_masked chars (backdrop_mask chars rs)"
  by (rule nth_equalityI)
     (simp_all add: replace_masked_def length_export_chars nth_export_chars
        length_backdrop_mask nth_backdrop_mask)

lemma backdrop_mask_example:
  "length txt = 10 \<Longrightarrow>
   backdrop_mask txt [\<lparr>range_id = a, range_start = 0, range_end = 5\<rparr>,
                      \<lparr>range_id = b, range_start = 3, range_end = 8\<rparr>] =
     [True, True, True, True, True, True, True, True, False, False]"
  by (simp add: backdrop_mask_def for_range.simps store_def eval_nat_numeral)

lemma ranges_commit:
  "ranges (commit (u, a, b) s) =
     ranges s @
     (if a \<noteq> b then [\<lparr>range_id = u, range_start = min a b, range_end = max a b\<rparr>] else [])"
  by (simp add: commit_def addRedaction_def handleSelect_def)

lemma covered_append: "covered (rs @ rs') k \<longleftrightarrow> covered rs k \<or> covered rs' k"
  by (auto simp: covered_def list_ex_iff)

lemma covered_fold_commit:
  "covered (ranges (fold commit xs s)) k \<longleftrightarrow>
     covered (ranges s) k \<or> (\<exists>p \<in> set (map snd xs). span_covers p k)"
proof (induction xs arbitrary: s)
  case Nil
  then show ?case by simp
next
  case (Cons x xs)
  obtain u a b where x: "x = (u, a, b)"
    by (cases x) auto
  have "covered (ranges (commit x s)) k \<longleftrightarrow> covered (ranges s) k \<or> span_covers (a, b) k"
    by (simp add: x ranges_commit covered_append span_covers_def covered_def covers_def)
  with Cons.IH [of "commit x s"] show ?case
    by (auto simp: x)
qed

lemma backdrop_mask_perm:
  assumes "mset rs = mset rs'"
  shows "backdrop_mask txt rs = backdrop_mask txt rs'"
proof -
  have "set rs = set rs'"
    using assms by (rule mset_eq_setD)
  then show ?thesis
    by (intro backdrop_mask_cong) (simp add: covered_iff)
qed

lemma backdrop_mask_commit_perm:
  assumes "mset (map snd xs) = mset (map snd ys)"
  shows "backdrop_mask txt (ranges (fold commit xs s)) =
         backdrop_mask txt (ranges (fold commit ys s))"
proof -
  have "set (map snd xs) = set (map snd ys)"
    using assms by (rule mset_eq_setD)
  then show ?thesis
    by (intro backdrop_mask_cong) (simp only: covered_fold_commit)
qed

lemma for_range_clip:
  "for_range i e v arr = for_range i (min e (int (length arr))) v arr"
  by (rule nth_equalityI) (auto simp: nth_for_range)

lemma covered_clip:
  "k < n \<Longrightarrow> covered (map (clip_range n) rs) k = covered rs k"
  by (auto simp: covered_iff clip_range_def)

subsection \<open>The drawing gesture\<close>

lemma normalize_simps:
  "rect_x (normalize cb) = (if rect_w cb < 0 then rect_x cb + rect_w cb else rect_x cb)"
  "rect_y (normalize cb) = (if rect_h cb < 0 then rect_y cb + rect_h cb else rect_y cb)"
  "rect_w (normalize cb) = \<bar>rect_w cb\<bar>"
  "rect_h (normalize cb) = \<bar>rect_h cb\<bar>"
  by (simp_all add: normalize_def Let_def)

lemma boxes_handleMouseUp:
  "isDrawing s \<Longrightarrow> currentBox s = Some cb \<Longrightarrow>
   boxes (handleMouseUp uuid s) =
     boxes s @
     (if 5 < \<bar>rect_w cb\<bar> \<and> 5 < \<bar>rect_h cb\<bar> then [new_box uuid (normalize cb)] else [])"
  by (simp add: handleMouseUp_def Let_def normalize_simps)

lemma handleMouseUp_drawing:
  "isDrawing s \<Longrightarrow> currentBox s = Some cb \<Longrightarrow>
   handleMouseUp uuid s =
     s\<lparr>isDrawing := False,
       boxes := boxes s @ (if 5 < rect_w (normalize cb) \<and> 5 < rect_h (normalize cb)
                           then [new_box uuid (normalize cb)] else []),
       currentBox := None\<rparr>"
  by (simp add: handleMouseUp_def Let_def)

lemma dispatch_gesture_inv: "gesture_inv s \<Longrightarrow> gesture_inv (dispatch uuid ev s)"
  by (cases ev)
     (auto simp: gesture_inv_def handleMouseDown_def handleMouseMove_def handleMouseUp_def
        removeBox_def Let_def split: option.splits prod.splits)

lemma dispatch_big_boxes: "big_boxes s \<Longrightarrow> big_boxes (dispatch uuid ev s)"
  by (cases ev)
     (auto simp: big_boxes_def handleMouseDown_def handleMouseMove_def handleMouseUp_def
        removeBox_def new_box_def Let_def list_all_iff split: option.splits prod.splits)

lemma reachable_gesture_inv: "reachable s \<Longrightarrow> gesture_inv s"
  by (induction rule: reachable.induct)
     (simp_all add: dispatch_gesture_inv, simp add: gesture_inv_def image_init_def)

lemma reachable_big_boxes: "reachable s \<Longrightarrow> big_boxes s"
  by (induction rule: reachable.induct)
     (simp_all add: dispatch_big_boxes, simp add: big_boxes_def image_init_def)

lemma ex_drawing_state:
  "ex_drawing px py =
     \<lparr>boxes = [],
      currentBox = Some \<lparr>rect_x = 100, rect_y = 50,
                         rect_w = max 0 (min px 500) - 100, rect_h = max 0 (min py 250) - 50\<rparr>,
      isDrawing = True, containerRef = Some ex_container, imageRef = Some ex_img\<rparr>"
  by (simp add: ex_drawing_def handleMouseMove_def handleMouseDown_def image_init_def
        getRelativeCoords_def ex_container_def Let_def)

lemma reachable_ex_drawing: "reachable (ex_drawing px py)"
proof -
  have "reachable (dispatch [] (MouseMove \<lparr>clientX = px, clientY = py, in_button = False\<rparr>)
          (dispatch [] (MouseDown \<lparr>clientX = 100, clientY = 50, in_button = False\<rparr>)
             (image_init (Some ex_container) (Some ex_img))))"
    by (intro reach_step reach_init)
  then show ?thesis
    by (simp add: ex_drawing_def)
qed

subsection \<open>The canvas\<close>

lemma clip_rects_append: "clip_rects (xs @ ys) = clip_rects xs @ clip_rects ys"
  by (induction xs rule: clip_rects.induct) simp_all

lemma clip_rects_box_ops:
  "clip_rects (box_ops sx sy b) = [(rect_x b * sx, rect_y b * sy, rect_w b * sx, rect_h b * sy)]"
  by (simp add: box_ops_def)

lemma clip_rects_concat_box_ops:
  "clip_rects (concat (map (box_ops sx sy) bs)) =
     map (\<lambda>b. (rect_x b * sx, rect_y b * sy, rect_w b * sx, rect_h b * sy)) bs"
  by (induction bs) (simp_all add: clip_rects_append clip_rects_box_ops)

subsection \<open>Text export\<close>

text \<open>
  C1. For every document and every list of committed ranges, the exported text is as
  long as the document; every index that some range covers holds the replacement
  character, and every other index holds the document's own character.
\<close>

theorem export_text_length_and_content:
  "length (blob_text (handleExport_text file rs)) = length (file_content file) \<and>
   (\<forall>k < length (file_content file).
      blob_text (handleExport_text file rs) ! k =
        (if \<exists>r\<in>set rs. range_start r \<le> int k \<and> int k < range_end r
         then replacement else file_content file ! k))"
  by (simp add: handleExport_text_def downloadText_def length_export_chars
        nth_export_chars covered_iff)

theorem export_text_length_and_content_witness:
  "(8::nat) < length (js_lit ''secret: AB12-CD34'') \<and>
   length (blob_text (handleExport_text
       \<lparr>file_name = js_lit ''a.txt'', file_type = FT_text,
        file_content = js_lit ''secret: AB12-CD34''\<rparr>
       [\<lparr>range_id = ''r'', range_start = 8, range_end = 18\<rparr>])) = 17 \<and>
   blob_text (handleExport_text
       \<lparr>file_name = js_lit ''a.txt'', file_type = FT_text,
        file_content = js_lit ''secret: AB12-CD34''\<rparr>
       [\<lparr>range_id = ''r'', range_start = 8, range_end = 18\<rparr>]) ! 8 = replacement"
  using export_text_length_and_content
    [of "\<lparr>file_name = js_lit ''a.txt'', file_type = FT_text,
          file_content = js_lit ''secret: AB12-CD34''\<rparr>"
        "[\<lparr>range_id = ''r'', range_start = 8, range_end = 18\<rparr>]"]
  by (simp add: js_lit_def)

subsection \<open>The mask\<close>

text \<open>
  C3. For every list of ranges and every document, the mask has the document's length
  and its entry at \<open>k\<close> is true exactly when some range's half-open interval contains
  \<open>k\<close>; the ranges \<open>[0, 5)\<close> and \<open>[3, 8)\<close> over ten characters give eight true entries
  followed by two false ones.
\<close>

theorem backdrop_mask_union:
  "length (backdrop_mask txt rs) = length txt \<and>
   (\<forall>k < length txt.
      backdrop_mask txt rs ! k =
        (\<exists>r\<in>set rs. range_start r \<le> int k \<and> int k < range_end r)) \<and>
   (length txt = 10 \<longrightarrow>
      backdrop_mask txt [\<lparr>range_id = a, range_start = 0, range_end = 5\<rparr>,
                         \<lparr>range_id = b, range_start = 3, range_end = 8\<rparr>] =
        [True, True, True, True, True, True, True, True, False, False])"
  by (simp add: length_backdrop_mask nth_backdrop_mask covered_iff backdrop_mask_example)

theorem backdrop_mask_union_witness:
  "length (js_lit ''0123456789'') = 10 \<and> (4::nat) < length (js_lit ''0123456789'') \<and>
   backdrop_mask (js_lit ''0123456789'')
     [\<lparr>range_id = ''a'', range_start = 0, range_end = 5\<rparr>,
      \<lparr>range_id = ''b'', range_start = 3, range_end = 8\<rparr>] =
     [True, True, True, True, True, True, True, True, False, False] \<and>
   backdrop_mask (js_lit ''0123456789'')
     [\<lparr>range_id = ''a'', range_start = 0, range_end = 5\<rparr>,
      \<lparr>range_id = ''b'', range_start = 3, range_end = 8\<rparr>] ! 4 = True"
  using backdrop_mask_union [of "js_lit ''0123456789''"
      "[\<lparr>range_id = ''a'', range_start = 0, range_end = 5\<rparr>,
        \<lparr>range_id = ''b'', range_start = 3, range_end = 8\<rparr>]" "''a''" "''b''"]
  by (simp add: js_lit_def)

text \<open>
  C6. The exported text is the document with the characters replaced where the mask
  derived from the same ranges is true; and two range lists that cover the same
  indices of the document (overlapping, nested, disjoint or merged) export the same.
\<close>

theorem export_text_via_mask:
  "blob_text (handleExport_text file rs) =
     replace_masked (file_content file) (backdrop_mask (file_content file) rs) \<and>
   ((\<forall>k < length (file_content file).
       (\<exists>r\<in>set rs. range_start r \<le> int k \<and> int k < range_end r) =
       (\<exists>r\<in>set rs'. range_start r \<le> int k \<and> int k < range_end r)) \<longrightarrow>
    handleExport_text file rs = handleExport_text file rs')"
proof -
  have "export_chars (file_content file) rs = export_chars (file_content file) rs'"
    if "\<forall>k < length (file_content file).
       (\<exists>r\<in>set rs. range_start r \<le> int k \<and> int k < range_end r) =
       (\<exists>r\<in>set rs'. range_start r \<le> int k \<and> int k < range_end r)"
    using that by (intro export_chars_cong) (simp add: covered_iff)
  then show ?thesis
    by (simp add: handleExport_text_def downloadText_def export_chars_via_mask)
qed

theorem export_text_via_mask_witness:
  "handleExport_text
     \<lparr>file_name = js_lit ''a.txt'', file_type = FT_text,
      file_content = js_lit ''0123456789''\<rparr>
     [\<lparr>range_id = ''a'', range_start = 0, range_end = 5\<rparr>,
      \<lparr>range_id = ''b'', range_start = 3, range_end = 8\<rparr>] =
   handleExport_text
     \<lparr>file_name = js_lit ''a.txt'', file_type = FT_text,
      file_content = js_lit ''0123456789''\<rparr>
     [\<lparr>range_id = ''c'', range_start = 0, range_end = 8\<rparr>]"
proof -
  have h: "\<forall>k < length (js_lit ''0123456789'').
       (\<exists>r\<in>set [\<lparr>range_id = ''a'', range_start = 0, range_end = 5\<rparr>,
                 \<lparr>range_id = ''b'', range_start = 3, range_end = 8\<rparr>].
          range_start r \<le> int k \<and> int k < range_end r) =
       (\<exists>r\<in>set [\<lparr>range_id = ''c'', range_start = 0, range_end = 8\<rparr>].
          range_start r \<le> int k \<and> int k < range_end r)"
    by auto
  show ?thesis
    using h export_text_via_mask
      [of "\<lparr>file_name = js_lit ''a.txt'', file_type = FT_text,
            file_content = js_lit ''0123456789''\<rparr>"
          "[\<lparr>range_id = ''a'', range_start = 0, range_end = 5\<rparr>,
            \<lparr>range_id = ''b'', range_start = 3, range_end = 8\<rparr>]"
          "[\<lparr>range_id = ''c'', range_start = 0, range_end = 8\<rparr>]"]
    by simp
qed

text \<open>
  C7. Committing the same selections in another order, whatever identifiers they
  receive, gives the same mask; so does any permutation of a list of ranges.
\<close>

theorem backdrop_mask_order_independent:
  "(mset rs = mset rs' \<longrightarrow> backdrop_mask txt rs = backdrop_mask txt rs') \<and>
   (mset (map snd xs) = mset (map snd ys) \<longrightarrow>
      backdrop_mask txt (ranges (fold commit xs text_init)) =
      backdrop_mask txt (ranges (fold commit ys text_init)))"
  using backdrop_mask_perm backdrop_mask_commit_perm by blast

theorem backdrop_mask_order_independent_witness:
  "backdrop_mask (js_lit ''0123456789'')
     [\<lparr>range_id = ''a'', range_start = 0, range_end = 5\<rparr>,
      \<lparr>range_id = ''b'', range_start = 3, range_end = 8\<rparr>] =
   backdrop_mask (js_lit ''0123456789'')
     [\<lparr>range_id = ''b'', range_start = 3, range_end = 8\<rparr>,
      \<lparr>range_id = ''a'', range_start = 0, range_end = 5\<rparr>] \<and>
   backdrop_mask (js_lit ''0123456789'')
     (ranges (fold commit [(''a'', 0, 5), (''b'', 3, 8)] text_init)) =
   backdrop_mask (js_lit ''0123456789'')
     (ranges (fold commit [(''c'', 3, 8), (''d'', 0, 5)] text_init))"
proof -
  have h1: "mset [\<lparr>range_id = ''a'', range_start = 0, range_end = 5\<rparr>,
                  \<lparr>range_id = ''b'', range_start = 3, range_end = 8\<rparr>] =
            mset [\<lparr>range_id = ''b'', range_start = 3, range_end = 8\<rparr>,
                  \<lparr>range_id = ''a'', range_start = 0, range_end = 5\<rparr>]"
    by simp
  have h2: "mset (map snd [(''a'', 0::int, 5::int), (''b'', 3, 8)]) =
            mset (map snd [(''c'', 3, 8), (''d'', 0, 5)])"
    by simp
  show ?thesis
    using h1 h2 backdrop_mask_order_independent
      [of "[\<lparr>range_id = ''a'', range_start = 0, range_end = 5\<rparr>,
            \<lparr>range_id = ''b'', range_start = 3, range_end = 8\<rparr>]"
          "[\<lparr>range_id = ''b'', range_start = 3, range_end = 8\<rparr>,
            \<lparr>range_id = ''a'', range_start = 0, range_end = 5\<rparr>]"
          "js_lit ''0123456789''"
          "[(''a'', 0, 5), (''b'', 3, 8)]" "[(''c'', 3, 8), (''d'', 0, 5)]"]
    by blast
qed

text \<open>
  C10. Export and mask derivation are total functions of the document and the ranges,
  and the part of a range at or beyond the document's end has no effect: the loop,
  the export and the mask are the same with every range cut off at the document's
  length, and both results are as long as the document.
\<close>

theorem ranges_past_end_are_skipped:
  "for_range i e v arr = for_range i (min e (int (length arr))) v arr \<and>
   handleExport_text file rs =
     handleExport_text file (map (clip_range (length (file_content file))) rs) \<and>
   backdrop_mask txt rs = backdrop_mask txt (map (clip_range (length txt)) rs) \<and>
   length (blob_text (handleExport_text file rs)) = length (file_content file) \<and>
   length (backdrop_mask txt rs) = length txt"
proof -
  have "export_chars (file_content file) rs =
          export_chars (file_content file) (map (clip_range (length (file_content file))) rs)"
    by (rule export_chars_cong) (simp add: covered_clip)
  moreover have "backdrop_mask txt rs = backdrop_mask txt (map (clip_range (length txt)) rs)"
    by (rule backdrop_mask_cong) (simp add: covered_clip)
  ultimately show ?thesis
    using for_range_clip [of i e v arr]
    by (simp add: handleExport_text_def downloadText_def length_export_chars
          length_backdrop_mask)
qed

subsection \<open>Committing a drawn rectangle\<close>


text \<open>
  C4. When a gesture ends, a pending rectangle with \<open>|w| \<le> 5\<close> or \<open>|h| \<le> 5\<close> leaves
  the boxes as they were, and one with \<open>|w| > 5\<close> and \<open>|h| > 5\<close> is appended, normalized,
  under the generated identifier (so identifiers stay distinct when the generated one
  is new). In every reachable state all boxes are larger than 5 in both directions.
\<close>

theorem minimum_size_filter:
  "(isDrawing s \<and> currentBox s = Some cb \<and> (\<bar>rect_w cb\<bar> \<le> 5 \<or> \<bar>rect_h cb\<bar> \<le> 5) \<longrightarrow>
      boxes (handleMouseUp uuid s) = boxes s) \<and>
   (isDrawing s \<and> currentBox s = Some cb \<and> 5 < \<bar>rect_w cb\<bar> \<and> 5 < \<bar>rect_h cb\<bar> \<longrightarrow>
      boxes (handleMouseUp uuid s) = boxes s @ [new_box uuid (normalize cb)] \<and>
      box_id (last (boxes (handleMouseUp uuid s))) = uuid \<and>
      (distinct (map box_id (boxes s)) \<and> uuid \<notin> set (map box_id (boxes s)) \<longrightarrow>
         distinct (map box_id (boxes (handleMouseUp uuid s))))) \<and>
   (reachable s \<longrightarrow> list_all (\<lambda>b. 5 < rect_w b \<and> 5 < rect_h b) (boxes s))"
proof -
  have "list_all (\<lambda>b. 5 < rect_w b \<and> 5 < rect_h b) (boxes s)" if "reachable s"
    using reachable_big_boxes [OF that] by (simp add: big_boxes_def)
  then show ?thesis
    by (auto simp: boxes_handleMouseUp new_box_def)
qed

theorem minimum_size_filter_witness:
  "boxes (handleMouseUp ''id1'' (ex_drawing 97 80)) = [] \<and>
   boxes (handleMouseUp ''id1'' (ex_drawing 80 80)) =
     [\<lparr>rect_x = 80, rect_y = 50, rect_w = 20, rect_h = 30, box_id = ''id1''\<rparr>] \<and>
   distinct (map box_id (boxes (handleMouseUp ''id1'' (ex_drawing 80 80)))) \<and>
   list_all (\<lambda>b. 5 < rect_w b \<and> 5 < rect_h b)
     (boxes (dispatch ''id1'' MouseUp (ex_drawing 80 80)))"
proof -
  have small: "isDrawing (ex_drawing 97 80) \<and>
      currentBox (ex_drawing 97 80) =
        Some \<lparr>rect_x = 100, rect_y = 50, rect_w = - 3, rect_h = 30\<rparr> \<and>
      boxes (ex_drawing 97 80) = []"
    by (simp add: ex_drawing_state)
  have large: "isDrawing (ex_drawing 80 80) \<and>
      currentBox (ex_drawing 80 80) =
        Some \<lparr>rect_x = 100, rect_y = 50, rect_w = - 20, rect_h = 30\<rparr> \<and>
      boxes (ex_drawing 80 80) = []"
    by (simp add: ex_drawing_state)
  have reach: "reachable (dispatch ''id1'' MouseUp (ex_drawing 80 80))"
    by (intro reach_step reachable_ex_drawing)
  have norm:
    "new_box ''id1'' (normalize \<lparr>rect_x = 100, rect_y = 50, rect_w = - 20, rect_h = 30\<rparr>) =
      \<lparr>rect_x = 80, rect_y = 50, rect_w = 20, rect_h = 30, box_id = ''id1''\<rparr>"
    by (simp add: new_box_def normalize_def)
  show ?thesis
    using small large reach norm
      minimum_size_filter [of "ex_drawing 97 80"
          "\<lparr>rect_x = 100, rect_y = 50, rect_w = - 3, rect_h = 30\<rparr>" "''id1''"]
      minimum_size_filter [of "ex_drawing 80 80"
          "\<lparr>rect_x = 100, rect_y = 50, rect_w = - 20, rect_h = 30\<rparr>" "''id1''"]
      minimum_size_filter [of "dispatch ''id1'' MouseUp (ex_drawing 80 80)"
          "\<lparr>rect_x = 100, rect_y = 50, rect_w = - 20, rect_h = 30\<rparr>" "''id1''"]
    by simp
qed

text \<open>
  C9. The pointer leaving the container is handled by the handler of the mouse
  button's release: both give the same state. During a gesture that state has the
  pending box normalized, appended if it passes the size filter, and cleared; in every
  reachable state no pending box and no gesture remain afterwards.
\<close>

theorem mouse_leave_completes_gesture:
  "dispatch uuid MouseLeave s = dispatch uuid MouseUp s \<and>
   (isDrawing s \<and> currentBox s = Some cb \<longrightarrow>
      dispatch uuid MouseLeave s =
        s\<lparr>isDrawing := False,
          boxes := boxes s @ (if 5 < rect_w (normalize cb) \<and> 5 < rect_h (normalize cb)
                              then [new_box uuid (normalize cb)] else []),
          currentBox := None\<rparr>) \<and>
   (reachable s \<longrightarrow>
      currentBox (dispatch uuid MouseLeave s) = None \<and>
      \<not> isDrawing (dispatch uuid MouseLeave s))"
proof -
  have "currentBox (handleMouseUp uuid s) = None \<and> \<not> isDrawing (handleMouseUp uuid s)"
    if "reachable s"
    using reachable_gesture_inv [OF that]
    by (auto simp: gesture_inv_def handleMouseUp_def Let_def split: option.splits)
  then show ?thesis
    by (simp add: handleMouseUp_drawing)
qed

theorem mouse_leave_completes_gesture_witness:
  "dispatch ''id1'' MouseLeave (ex_drawing 80 80) =
     \<lparr>boxes = [\<lparr>rect_x = 80, rect_y = 50, rect_w = 20, rect_h = 30, box_id = ''id1''\<rparr>],
      currentBox = None, isDrawing = False,
      containerRef = Some ex_container, imageRef = Some ex_img\<rparr> \<and>
   dispatch ''id1'' MouseLeave (ex_drawing 97 80) =
     \<lparr>boxes = [], currentBox = None, isDrawing = False,
      containerRef = Some ex_container, imageRef = Some ex_img\<rparr> \<and>
   currentBox (dispatch ''id2'' MouseLeave (dispatch ''id1'' MouseLeave (ex_drawing 80 80))) =
     None"
proof -
  have reach: "reachable (dispatch ''id1'' MouseLeave (ex_drawing 80 80))"
    by (intro reach_step reachable_ex_drawing)
  show ?thesis
    using reach
      mouse_leave_completes_gesture [of "''id1''" "ex_drawing 80 80"
          "\<lparr>rect_x = 100, rect_y = 50, rect_w = - 20, rect_h = 30\<rparr>"]
      mouse_leave_completes_gesture [of "''id1''" "ex_drawing 97 80"
          "\<lparr>rect_x = 100, rect_y = 50, rect_w = - 3, rect_h = 30\<rparr>"]
      mouse_leave_completes_gesture
        [of "''id2''" "dispatch ''id1'' MouseLeave (ex_drawing 80 80)"
          "\<lparr>rect_x = 100, rect_y = 50, rect_w = - 20, rect_h = 30\<rparr>"]
    by (simp add: ex_drawing_state normalize_def new_box_def)
qed

subsection \<open>Image export\<close>

text \<open>
  C8. For every box and every pair of scale factors, the rectangle passed to the
  context is \<open>(x * sx, y * sy, w * sx, h * sy)\<close>; an export with the image present, a
  context and a non-zero displayed size clips to these rectangles, in the order of
  the boxes, with \<open>sx\<close> and \<open>sy\<close> the ratios of natural to displayed width and height.
\<close>

theorem export_scales_each_axis:
  "clip_rects (box_ops sx sy b) =
     [(rect_x b * sx, rect_y b * sy, rect_w b * sx, rect_h b * sy)] \<and>
   (imageRef s = Some img \<and> has_ctx \<and> img_width img \<noteq> 0 \<and> img_height img \<noteq> 0 \<longrightarrow>
      (\<exists>d. handleExport_image has_ctx s file = Inr (Some d) \<and>
           clip_rects (canvas_ops (image_canvas d)) =
             map (\<lambda>b. (rect_x b * (real (naturalWidth img) / real (img_width img)),
                        rect_y b * (real (naturalHeight img) / real (img_height img)),
                        rect_w b * (real (naturalWidth img) / real (img_width img)),
                        rect_h b * (real (naturalHeight img) / real (img_height img))))
               (boxes s)))"
  by (simp add: clip_rects_box_ops handleExport_image_def deref_def downloadImage_def
        clip_rects_concat_box_ops Let_def)

theorem export_scales_each_axis_witness:
  "\<exists>d. handleExport_image True
         (handleMouseUp ''id1'' (ex_drawing 80 80)) ex_image_file = Inr (Some d) \<and>
       clip_rects (canvas_ops (image_canvas d)) = [(160, 100, 40, 60)]"
proof -
  have st: "handleMouseUp ''id1'' (ex_drawing 80 80) =
     \<lparr>boxes = [\<lparr>rect_x = 80, rect_y = 50, rect_w = 20, rect_h = 30, box_id = ''id1''\<rparr>],
      currentBox = None, isDrawing = False,
      containerRef = Some ex_container, imageRef = Some ex_img\<rparr>"
    by (simp add: ex_drawing_state handleMouseUp_def normalize_def new_box_def)
  show ?thesis
    using export_scales_each_axis
      [of 2 2 "\<lparr>rect_x = 80, rect_y = 50, rect_w = 20, rect_h = 30, box_id = ''id1''\<rparr>"
          "handleMouseUp ''id1'' (ex_drawing 80 80)" ex_img True ex_image_file]
    by (simp add: st ex_img_def)
qed




end
